theory Spec2Isabelle
  imports Main
begin

section \<open>Python values\<close>

text \<open>
  The tools of \<^verbatim>\<open>src/tools/br_team_memory.py\<close> handle player data: a list of
  dictionaries whose values are \<^verbatim>\<open>None\<close>, booleans, integers, strings, lists and
  dictionaries with string keys (what \<^verbatim>\<open>json.load\<close> returns and what the data
  tools of the repository build; the numeric fields are produced with \<^verbatim>\<open>int(...)\<close>).
  A dictionary is an association list in insertion order, as Python iterates it.
  A string is its UTF-8 byte sequence. Floating point numbers are not modelled.
\<close>

datatype pyval =
    PNone
  | PBool bool
  | PInt int
  | PStr string
  | PList "pyval list"
  | PDict "(string \<times> pyval) list"

text \<open>
  The exceptions the code can raise. \<open>OutsideModel\<close> is not a Python exception: it
  marks a JSON text whose value this model has no constructor for (a float, or a
  \<^verbatim>\<open>\u\<close> escape beyond ASCII). \<open>RecursionError\<close> is the decoder running out of
  nesting budget.
\<close>

datatype error =
    KeyError pyval
  | TypeError
  | AttributeError
  | JSONDecodeError
  | RecursionError
  | OutsideModel

text \<open>Python's \<^verbatim>\<open>==\<close> on these values: \<^verbatim>\<open>True == 1\<close>, lists compare element by
  element, dictionaries compare as mappings (same size, every key of the left one bound
  to an equal value on the right).\<close>

fun py_eq :: "pyval \<Rightarrow> pyval \<Rightarrow> bool" where
  "py_eq PNone PNone = True"
| "py_eq (PBool a) (PBool b) = (a = b)"
| "py_eq (PBool a) (PInt j) = ((if a then 1 else 0) = j)"
| "py_eq (PInt i) (PBool b) = (i = (if b then 1 else 0))"
| "py_eq (PInt i) (PInt j) = (i = j)"
| "py_eq (PStr s) (PStr t) = (s = t)"
| "py_eq (PList xs) (PList ys) = list_all2 py_eq xs ys"
| "py_eq (PDict kvs) (PDict kws) =
     (length kvs = length kws \<and>
      list_all (\<lambda>(k, v). case map_of kws k of None \<Rightarrow> False | Some w \<Rightarrow> py_eq v w) kvs)"
| "py_eq _ _ = False"

text \<open>Lists and dictionaries are unhashable: using one as a dictionary key raises
  \<^verbatim>\<open>TypeError\<close>.\<close>

fun hashable :: "pyval \<Rightarrow> bool" where
  "hashable (PList xs) = False"
| "hashable (PDict kvs) = False"
| "hashable v = True"

text \<open>\<^verbatim>\<open>for x in v\<close>: a list yields its elements, a dictionary its keys, a string its
  characters; anything else is not iterable.\<close>

fun py_iter :: "pyval \<Rightarrow> error + pyval list" where
  "py_iter (PList xs) = Inr xs"
| "py_iter (PDict kvs) = Inr (map (\<lambda>kv. PStr (fst kv)) kvs)"
| "py_iter (PStr s) = Inr (map (\<lambda>c. PStr [c]) s)"
| "py_iter v = Inl TypeError"

text \<open>\<^verbatim>\<open>p[key]\<close> with a string key: only a dictionary accepts it, and a missing key
  raises \<^verbatim>\<open>KeyError\<close>.\<close>

fun py_getitem :: "pyval \<Rightarrow> string \<Rightarrow> error + pyval" where
  "py_getitem (PDict kvs) key =
     (case map_of kvs key of None \<Rightarrow> Inl (KeyError (PStr key)) | Some v \<Rightarrow> Inr v)"
| "py_getitem v key = Inl TypeError"

text \<open>\<^verbatim>\<open>p.get(key, default)\<close> and \<^verbatim>\<open>p.get(key)\<close> (default \<^verbatim>\<open>None\<close>): only a
  dictionary has the method.\<close>

fun py_get_default :: "pyval \<Rightarrow> string \<Rightarrow> pyval \<Rightarrow> error + pyval" where
  "py_get_default (PDict kvs) key dflt =
     (case map_of kvs key of None \<Rightarrow> Inr dflt | Some v \<Rightarrow> Inr v)"
| "py_get_default v key dflt = Inl AttributeError"

definition py_get :: "pyval \<Rightarrow> string \<Rightarrow> error + pyval" where
  "py_get p key = py_get_default p key PNone"

text \<open>\<^verbatim>\<open>d[k] = v\<close> on a dictionary with string keys: an existing key keeps its
  position and takes the new value, a new key goes to the end.\<close>

fun dict_setitem :: "(string \<times> 'v) list \<Rightarrow> string \<Rightarrow> 'v \<Rightarrow> (string \<times> 'v) list" where
  "dict_setitem [] k v = [(k, v)]"
| "dict_setitem (p # ps) k v = (if fst p = k then (fst p, v) # ps else p # dict_setitem ps k v)"

text \<open>The same for a dictionary whose keys are arbitrary hashable values (the player
  names): keys are compared with \<^verbatim>\<open>==\<close>, and the key object first inserted stays.\<close>

fun pydict_setitem :: "(pyval \<times> 'v) list \<Rightarrow> pyval \<Rightarrow> 'v \<Rightarrow> (pyval \<times> 'v) list" where
  "pydict_setitem [] k v = [(k, v)]"
| "pydict_setitem (p # ps) k v =
     (if py_eq (fst p) k then (fst p, v) # ps else p # pydict_setitem ps k v)"

fun pydict_lookup :: "(pyval \<times> 'v) list \<Rightarrow> pyval \<Rightarrow> 'v option" where
  "pydict_lookup [] k = None"
| "pydict_lookup (p # ps) k = (if py_eq (fst p) k then Some (snd p) else pydict_lookup ps k)"

definition pydict_contains :: "(pyval \<times> 'v) list \<Rightarrow> pyval \<Rightarrow> bool" where
  "pydict_contains d k = (pydict_lookup d k \<noteq> None)"

section \<open>The JSON text of a value\<close>

text \<open>
  \<^verbatim>\<open>json.dump(players_data, f, ensure_ascii=False, indent=2)\<close> and \<^verbatim>\<open>json.load(f)\<close>
  are calls into Python's standard library; the encoder and the decoder below follow
  \<^verbatim>\<open>json/encoder.py\<close> and \<^verbatim>\<open>json/decoder.py\<close> on the values of \<open>pyval\<close>.
  The interpreter's resource limits (the recursion depth, the number of digits of an
  integer literal) are not modelled.
\<close>

abbreviation DQ :: char where "DQ \<equiv> CHR 0x22"
abbreviation BSL :: char where "BSL \<equiv> CHR 0x5C"
abbreviation NL :: char where "NL \<equiv> CHR 0x0A"

definition digit_char :: "nat \<Rightarrow> char" where
  "digit_char d = char_of (48 + d)"

fun str_nat :: "nat \<Rightarrow> string" where
  "str_nat n = (if n < 10 then [digit_char n] else str_nat (n div 10) @ [digit_char (n mod 10)])"

declare str_nat.simps [simp del]

text \<open>\<^verbatim>\<open>str(i)\<close> of an integer, also what an f-string and the JSON encoder write.\<close>

definition str_int :: "int \<Rightarrow> string" where
  "str_int i = (if i < 0 then CHR ''-'' # str_nat (nat (- i)) else str_nat (nat i))"

definition hex_char :: "nat \<Rightarrow> char" where
  "hex_char d = (if d < 10 then char_of (48 + d) else char_of (87 + d))"

text \<open>With \<^verbatim>\<open>ensure_ascii=False\<close> the encoder escapes the quote, the backslash and the
  control characters below 0x20, and writes every other character as it is.\<close>

definition esc_char :: "char \<Rightarrow> string" where
  "esc_char c =
     (if c = DQ then [BSL, DQ]
      else if c = BSL then [BSL, BSL]
      else if c = NL then [BSL, CHR ''n'']
      else if c = CHR 0x0D then [BSL, CHR ''r'']
      else if c = CHR 0x09 then [BSL, CHR ''t'']
      else if c = CHR 0x08 then [BSL, CHR ''b'']
      else if c = CHR 0x0C then [BSL, CHR ''f'']
      else if (of_char c :: nat) < 32
        then [BSL, CHR ''u'', CHR ''0'', CHR ''0'',
              hex_char (of_char c div 16), hex_char (of_char c mod 16)]
      else [c])"

definition encode_basestring :: "string \<Rightarrow> string" where
  "encode_basestring s = DQ # concat (map esc_char s) @ [DQ]"

definition newline_indent :: "nat \<Rightarrow> string" where
  "newline_indent level = NL # replicate (2 * level) CHR '' ''"

text \<open>The encoder at nesting level \<open>lvl\<close>, with \<^verbatim>\<open>indent=2\<close>: the item separator is a
  comma followed by a new line and the indentation, the key separator is a colon and a
  space, and an empty list or dictionary is written without a line break.\<close>

fun iterencode :: "nat \<Rightarrow> pyval \<Rightarrow> string"
  and iterencode_list :: "nat \<Rightarrow> pyval list \<Rightarrow> string"
  and iterencode_dict :: "nat \<Rightarrow> (string \<times> pyval) list \<Rightarrow> string"
where
  "iterencode lvl PNone = ''null''"
| "iterencode lvl (PBool b) = (if b then ''true'' else ''false'')"
| "iterencode lvl (PInt i) = str_int i"
| "iterencode lvl (PStr s) = encode_basestring s"
| "iterencode lvl (PList xs) =
     (if xs = [] then ''[]''
      else ''['' @ newline_indent (Suc lvl) @ iterencode_list (Suc lvl) xs
             @ newline_indent lvl @ '']'')"
| "iterencode lvl (PDict kvs) =
     (if kvs = [] then ''{}''
      else ''{'' @ newline_indent (Suc lvl) @ iterencode_dict (Suc lvl) kvs
             @ newline_indent lvl @ ''}'')"
| "iterencode_list lvl [] = []"
| "iterencode_list lvl (x # xs) =
     iterencode lvl x
       @ (if xs = [] then [] else '','' @ newline_indent lvl @ iterencode_list lvl xs)"
| "iterencode_dict lvl [] = []"
| "iterencode_dict lvl (kv # kvs) =
     encode_basestring (fst kv) @ '': '' @ iterencode lvl (snd kv)
       @ (if kvs = [] then [] else '','' @ newline_indent lvl @ iterencode_dict lvl kvs)"

definition json_dumps :: "pyval \<Rightarrow> string" where
  "json_dumps v = iterencode 0 v"

subsection \<open>The decoder\<close>

definition is_ws :: "char \<Rightarrow> bool" where
  "is_ws c = (c = CHR '' '' \<or> c = CHR 0x09 \<or> c = NL \<or> c = CHR 0x0D)"

definition skip_ws :: "string \<Rightarrow> string" where
  "skip_ws s = dropWhile is_ws s"

definition is_digit :: "char \<Rightarrow> bool" where
  "is_digit c = (48 \<le> (of_char c :: nat) \<and> (of_char c :: nat) \<le> 57)"

definition digit_val :: "char \<Rightarrow> nat" where
  "digit_val c = of_char c - 48"

definition nat_of_digits :: "string \<Rightarrow> nat" where
  "nat_of_digits ds = foldl (\<lambda>a c. 10 * a + digit_val c) 0 ds"

definition hex_val :: "char \<Rightarrow> nat option" where
  "hex_val c =
     (let k = (of_char c :: nat) in
      if 48 \<le> k \<and> k \<le> 57 then Some (k - 48)
      else if 97 \<le> k \<and> k \<le> 102 then Some (k - 87)
      else if 65 \<le> k \<and> k \<le> 70 then Some (k - 55)
      else None)"

definition hex4 :: "char \<Rightarrow> char \<Rightarrow> char \<Rightarrow> char \<Rightarrow> nat option" where
  "hex4 a b c d =
     (case (hex_val a, hex_val b, hex_val c, hex_val d) of
        (Some x, Some y, Some z, Some w) \<Rightarrow> Some (((x * 16 + y) * 16 + z) * 16 + w)
      | _ \<Rightarrow> None)"

definition unescape :: "char \<Rightarrow> char option" where
  "unescape e =
     (if e = DQ then Some DQ
      else if e = BSL then Some BSL
      else if e = CHR ''/'' then Some CHR ''/''
      else if e = CHR ''b'' then Some (CHR 0x08)
      else if e = CHR ''f'' then Some (CHR 0x0C)
      else if e = CHR ''n'' then Some NL
      else if e = CHR ''r'' then Some (CHR 0x0D)
      else if e = CHR ''t'' then Some (CHR 0x09)
      else None)"

definition cons_result :: "char \<Rightarrow> error + string \<times> string \<Rightarrow> error + string \<times> string" where
  "cons_result c r = (case r of Inl e \<Rightarrow> Inl e | Inr (str, rest) \<Rightarrow> Inr (c # str, rest))"

text \<open>The string scanner, called after the opening quote (strict mode: a raw control
  character is an error). It returns the string and the text after the closing quote.\<close>

fun scanstring :: "string \<Rightarrow> error + string \<times> string" where
  "scanstring [] = Inl JSONDecodeError"
| "scanstring (c # cs) =
     (if c = DQ then Inr ([], cs)
      else if c = BSL then
        (case cs of
           [] \<Rightarrow> Inl JSONDecodeError
         | e # cs1 \<Rightarrow>
             if e = CHR ''u'' then
               (case cs1 of
                  h1 # h2 # h3 # h4 # cs2 \<Rightarrow>
                    (case hex4 h1 h2 h3 h4 of
                       None \<Rightarrow> Inl JSONDecodeError
                     | Some k \<Rightarrow>
                         if k < 128 then cons_result (char_of k) (scanstring cs2)
                         else Inl OutsideModel)
                | _ \<Rightarrow> Inl JSONDecodeError)
             else
               (case unescape e of
                  None \<Rightarrow> Inl JSONDecodeError
                | Some ch \<Rightarrow> cons_result ch (scanstring cs1)))
      else if (of_char c :: nat) < 32 then Inl JSONDecodeError
      else cons_result c (scanstring cs))"

definition has_frac :: "string \<Rightarrow> bool" where
  "has_frac s = (case s of c # d # _ \<Rightarrow> c = CHR ''.'' \<and> is_digit d | _ \<Rightarrow> False)"

definition has_exp :: "string \<Rightarrow> bool" where
  "has_exp s =
     (case s of
        c # d # ds \<Rightarrow>
          (c = CHR ''e'' \<or> c = CHR ''E'') \<and>
          (is_digit d \<or>
           ((d = CHR ''+'' \<or> d = CHR ''-'') \<and> (case ds of e # _ \<Rightarrow> is_digit e | [] \<Rightarrow> False)))
      | _ \<Rightarrow> False)"

definition starts_with :: "string \<Rightarrow> string \<Rightarrow> bool" where
  "starts_with p s = (take (length p) s = p)"

text \<open>The number pattern: an optional minus sign, then a single zero or a digit
  sequence without a leading zero. A fraction or an exponent makes the number a float.\<close>

definition match_number :: "string \<Rightarrow> error + pyval \<times> string" where
  "match_number s =
     (let neg = starts_with ''-'' s;
          s1 = (if neg then tl s else s);
          ds = (if starts_with ''0'' s1 then ''0'' else takeWhile is_digit s1);
          rest = drop (length ds) s1
      in if ds = [] then
           (if starts_with ''NaN'' s \<or> starts_with ''Infinity'' s \<or> starts_with ''-Infinity'' s
            then Inl OutsideModel else Inl JSONDecodeError)
         else if has_frac rest \<or> has_exp rest then Inl OutsideModel
         else Inr (PInt (if neg then - int (nat_of_digits ds) else int (nat_of_digits ds)), rest))"

text \<open>\<open>scan_once\<close> reads one value at the start of the text; \<open>JSONArray\<close> and
  \<open>JSONObject\<close> are the loops over the items of a non-empty array and object, with
  the items read so far. The first argument bounds the number of nested calls.\<close>

fun scan_once :: "nat \<Rightarrow> string \<Rightarrow> error + pyval \<times> string"
  and JSONArray :: "nat \<Rightarrow> pyval list \<Rightarrow> string \<Rightarrow> error + pyval \<times> string"
  and JSONObject :: "nat \<Rightarrow> (string \<times> pyval) list \<Rightarrow> string \<Rightarrow> error + pyval \<times> string"
where
  "scan_once 0 s = Inl RecursionError"
| "scan_once (Suc n) s =
     (case s of
        [] \<Rightarrow> Inl JSONDecodeError
      | c # cs \<Rightarrow>
          if c = DQ then
            (case scanstring cs of Inl e \<Rightarrow> Inl e | Inr (str, rest) \<Rightarrow> Inr (PStr str, rest))
          else if c = CHR ''{'' then
            (case skip_ws cs of
               [] \<Rightarrow> Inl JSONDecodeError
             | d # r \<Rightarrow> if d = CHR ''}'' then Inr (PDict [], r) else JSONObject n [] (d # r))
          else if c = CHR ''['' then
            (case skip_ws cs of
               [] \<Rightarrow> Inl JSONDecodeError
             | d # r \<Rightarrow> if d = CHR '']'' then Inr (PList [], r) else JSONArray n [] (d # r))
          else if starts_with ''null'' s then Inr (PNone, drop 4 s)
          else if starts_with ''true'' s then Inr (PBool True, drop 4 s)
          else if starts_with ''false'' s then Inr (PBool False, drop 5 s)
          else match_number s)"
| "JSONArray 0 acc s = Inl RecursionError"
| "JSONArray (Suc n) acc s =
     (case scan_once n s of
        Inl e \<Rightarrow> Inl e
      | Inr (v, r1) \<Rightarrow>
          (case skip_ws r1 of
             [] \<Rightarrow> Inl JSONDecodeError
           | c # r2 \<Rightarrow>
               if c = CHR '']'' then Inr (PList (acc @ [v]), r2)
               else if c = CHR '','' then JSONArray n (acc @ [v]) (skip_ws r2)
               else Inl JSONDecodeError))"
| "JSONObject 0 acc s = Inl RecursionError"
| "JSONObject (Suc n) acc s =
     (case s of
        [] \<Rightarrow> Inl JSONDecodeError
      | q # cs \<Rightarrow>
          if q \<noteq> DQ then Inl JSONDecodeError
          else
            (case scanstring cs of
               Inl e \<Rightarrow> Inl e
             | Inr (key, r1) \<Rightarrow>
                 (case skip_ws r1 of
                    [] \<Rightarrow> Inl JSONDecodeError
                  | c # r2 \<Rightarrow>
                      if c \<noteq> CHR '':'' then Inl JSONDecodeError
                      else
                        (case scan_once n (skip_ws r2) of
                           Inl e \<Rightarrow> Inl e
                         | Inr (v, r3) \<Rightarrow>
                             (case skip_ws r3 of
                                [] \<Rightarrow> Inl JSONDecodeError
                              | d # r4 \<Rightarrow>
                                  if d = CHR ''}'' then Inr (PDict (dict_setitem acc key v), r4)
                                  else if d = CHR '','' then
                                    JSONObject n (dict_setitem acc key v) (skip_ws r4)
                                  else Inl JSONDecodeError)))))"

text \<open>\<^verbatim>\<open>json.loads\<close>: leading white space, one value, trailing white space, and nothing
  else. Every nested call consumes a character, so the length of the text is budget
  enough.\<close>

definition json_loads :: "string \<Rightarrow> error + pyval" where
  "json_loads s =
     (case scan_once (Suc (length s)) (skip_ws s) of
        Inl e \<Rightarrow> Inl e
      | Inr (v, rest) \<Rightarrow> if skip_ws rest = [] then Inr v else Inl JSONDecodeError)"

section \<open>The snapshot store\<close>

text \<open>The snapshot directory as a map from file names to file contents.\<close>

type_synonym fs = "string \<rightharpoonup> string"

definition SNAPSHOT_DIR :: string where
  "SNAPSHOT_DIR = ''./memory/team_snapshots''"

text \<open>\<^verbatim>\<open>os.path.join(SNAPSHOT_DIR, f"team_{team_id}.json")\<close>\<close>

definition snapshot_filename :: "int \<Rightarrow> string" where
  "snapshot_filename team_id = SNAPSHOT_DIR @ ''/'' @ ''team_'' @ str_int team_id @ ''.json''"

text \<open>
  What can go wrong in the \<^verbatim>\<open>try\<close> block of \<^verbatim>\<open>SaveTeamSnapshot.forward\<close>:
  \<^verbatim>\<open>open(filename, "w")\<close> fails, and then nothing is touched; or the file has been
  opened, which truncates it, and writing fails after \<open>n\<close> characters.
\<close>

datatype io_fault = NoFault | OpenFails | WriteFails nat

text \<open>
  \<^verbatim>\<open>SaveTeamSnapshot.forward\<close> returns the new state of the directory and the boolean the
  tool returns. Every exception is caught and turned into \<^verbatim>\<open>False\<close>; the message
  printed on the way is not modelled.
\<close>

definition SaveTeamSnapshot_forward :: "io_fault \<Rightarrow> fs \<Rightarrow> int \<Rightarrow> pyval \<Rightarrow> fs \<times> bool" where
  "SaveTeamSnapshot_forward fault disk team_id players_data =
     (let filename = snapshot_filename team_id in
      case fault of
        OpenFails \<Rightarrow> (disk, False)
      | WriteFails n \<Rightarrow> (disk(filename \<mapsto> take n (json_dumps players_data)), False)
      | NoFault \<Rightarrow> (disk(filename \<mapsto> json_dumps players_data), True))"

text \<open>\<^verbatim>\<open>LoadTeamSnapshot.forward\<close>: \<^verbatim>\<open>None\<close> when the file does not exist, else the
  decoded content; a decoding error propagates.\<close>

definition LoadTeamSnapshot_forward :: "fs \<Rightarrow> int \<Rightarrow> error + pyval" where
  "LoadTeamSnapshot_forward disk team_id =
     (let filename = snapshot_filename team_id in
      case disk filename of
        None \<Rightarrow> Inr PNone
      | Some content \<Rightarrow> json_loads content)"

section \<open>Comparing snapshots\<close>

text \<open>
  The result of \<^verbatim>\<open>CompareTeamSnapshots.forward\<close>: the dictionary \<^verbatim>\<open>changes\<close> with
  its three keys. A field difference \<^verbatim>\<open>{"old": a, "new": b}\<close> is the pair \<open>(a, b)\<close>;
  the differences of one player form a dictionary from field names to such pairs.
\<close>

type_synonym diff = "(string \<times> (pyval \<times> pyval)) list"

record changes =
  new_players :: "pyval list"
  removed_players :: "pyval list"
  attribute_changes :: "(pyval \<times> diff) list"

text \<open>The dictionary comprehension \<^verbatim>\<open>{p["name"]: p for p in snapshot}\<close>, from the
  dictionary built so far.\<close>

fun players_by_name :: "(pyval \<times> pyval) list \<Rightarrow> pyval list \<Rightarrow> error + (pyval \<times> pyval) list" where
  "players_by_name acc [] = Inr acc"
| "players_by_name acc (p # ps) =
     (case py_getitem p ''name'' of
        Inl e \<Rightarrow> Inl e
      | Inr name \<Rightarrow>
          if hashable name then players_by_name (pydict_setitem acc name p) ps
          else Inl TypeError)"

text \<open>The two loops \<^verbatim>\<open>for name in d1: if name not in d2: lst.append(name)\<close>, over the
  keys of \<open>d1\<close>.\<close>

fun names_not_in :: "(pyval \<times> pyval) list \<Rightarrow> pyval list \<Rightarrow> pyval list \<Rightarrow> pyval list" where
  "names_not_in d2 [] lst = lst"
| "names_not_in d2 (name # names) lst =
     names_not_in d2 names (if \<not> pydict_contains d2 name then lst @ [name] else lst)"

definition ATTRS :: "string list" where
  "ATTRS = [''age'', ''salary'', ''form'', ''aggression'', ''discipline'',
            ''leadership'', ''experience'', ''weight'', ''height'', ''csr'', ''energy'']"

text \<open>The loop over the top-level attributes.\<close>

fun check_attrs :: "pyval \<Rightarrow> pyval \<Rightarrow> string list \<Rightarrow> diff \<Rightarrow> error + diff" where
  "check_attrs old_p new_p [] diff = Inr diff"
| "check_attrs old_p new_p (attr # attrs) diff =
     (case py_get old_p attr of
        Inl e \<Rightarrow> Inl e
      | Inr a \<Rightarrow>
          (case py_get new_p attr of
             Inl e \<Rightarrow> Inl e
           | Inr b \<Rightarrow>
               check_attrs old_p new_p attrs
                 (if \<not> py_eq a b then dict_setitem diff attr (a, b) else diff)))"

text \<open>The body of the loop over the skills, for the keys of a dictionary:
  \<^verbatim>\<open>old_p["skills"].get(skill) != new_p["skills"].get(skill)\<close>, evaluated from left to
  right.\<close>

fun skills_loop :: "pyval \<Rightarrow> pyval \<Rightarrow> string list \<Rightarrow> diff \<Rightarrow> error + diff" where
  "skills_loop old_p new_p [] diff = Inr diff"
| "skills_loop old_p new_p (skill # skills) diff =
     (case py_getitem old_p ''skills'' of
        Inl e \<Rightarrow> Inl e
      | Inr old_skills \<Rightarrow>
          (case py_get old_skills skill of
             Inl e \<Rightarrow> Inl e
           | Inr a \<Rightarrow>
               (case py_getitem new_p ''skills'' of
                  Inl e \<Rightarrow> Inl e
                | Inr new_skills \<Rightarrow>
                    (case py_get new_skills skill of
                       Inl e \<Rightarrow> Inl e
                     | Inr b \<Rightarrow>
                         skills_loop old_p new_p skills
                           (if \<not> py_eq a b then dict_setitem diff skill (a, b) else diff)))))"

text \<open>
  \<^verbatim>\<open>for skill in old_p.get("skills", {})\<close>. When the value under \<^verbatim>\<open>"skills"\<close> is a
  dictionary the loop runs over its keys. A non-empty list or string is iterable, but
  the first \<^verbatim>\<open>old_p["skills"].get(skill)\<close> then raises \<^verbatim>\<open>AttributeError\<close>; an empty
  one gives no iteration. Any other value is not iterable.
\<close>

definition check_skills :: "pyval \<Rightarrow> pyval \<Rightarrow> diff \<Rightarrow> error + diff" where
  "check_skills old_p new_p diff =
     (case py_get_default old_p ''skills'' (PDict []) of
        Inl e \<Rightarrow> Inl e
      | Inr (PDict kvs) \<Rightarrow> skills_loop old_p new_p (map fst kvs) diff
      | Inr (PList xs) \<Rightarrow> if xs = [] then Inr diff else Inl AttributeError
      | Inr (PStr s) \<Rightarrow> if s = [] then Inr diff else Inl AttributeError
      | Inr v \<Rightarrow> Inl TypeError)"

text \<open>The differences of one matched pair of records: \<^verbatim>\<open>diff = {}\<close>, then the two
  loops.\<close>

definition player_diff :: "pyval \<Rightarrow> pyval \<Rightarrow> error + diff" where
  "player_diff old_p new_p =
     (case check_attrs old_p new_p ATTRS [] of
        Inl e \<Rightarrow> Inl e
      | Inr diff \<Rightarrow> check_skills old_p new_p diff)"

text \<open>The loop \<^verbatim>\<open>for name in new_players_by_name: if name in old_players_by_name: ...\<close>
  over the keys of the new dictionary, with the \<^verbatim>\<open>attribute_changes\<close> built so far.\<close>

fun attribute_loop ::
  "(pyval \<times> pyval) list \<Rightarrow> (pyval \<times> pyval) list \<Rightarrow> pyval list \<Rightarrow> (pyval \<times> diff) list
     \<Rightarrow> error + (pyval \<times> diff) list" where
  "attribute_loop old_players_by_name new_players_by_name [] ac = Inr ac"
| "attribute_loop old_players_by_name new_players_by_name (name # names) ac =
     (case pydict_lookup old_players_by_name name of
        None \<Rightarrow> attribute_loop old_players_by_name new_players_by_name names ac
      | Some old_p \<Rightarrow>
          (case pydict_lookup new_players_by_name name of
             None \<Rightarrow> Inl (KeyError name)
           | Some new_p \<Rightarrow>
               (case player_diff old_p new_p of
                  Inl e \<Rightarrow> Inl e
                | Inr diff \<Rightarrow>
                    attribute_loop old_players_by_name new_players_by_name names
                      (if diff \<noteq> [] then pydict_setitem ac name diff else ac))))"

text \<open>The comparison once the old snapshot is known not to be \<^verbatim>\<open>None\<close>.\<close>

definition compare_snapshots :: "pyval \<Rightarrow> pyval \<Rightarrow> error + changes" where
  "compare_snapshots old_snapshot new_snapshot =
     (case py_iter old_snapshot of
        Inl e \<Rightarrow> Inl e
      | Inr olds \<Rightarrow>
          (case players_by_name [] olds of
             Inl e \<Rightarrow> Inl e
           | Inr old_players_by_name \<Rightarrow>
               (case py_iter new_snapshot of
                  Inl e \<Rightarrow> Inl e
                | Inr news \<Rightarrow>
                    (case players_by_name [] news of
                       Inl e \<Rightarrow> Inl e
                     | Inr new_players_by_name \<Rightarrow>
                         (case attribute_loop old_players_by_name new_players_by_name
                                 (map fst new_players_by_name) [] of
                            Inl e \<Rightarrow> Inl e
                          | Inr ac \<Rightarrow>
                              Inr \<lparr> new_players =
                                      names_not_in old_players_by_name
                                        (map fst new_players_by_name) [],
                                    removed_players =
                                      names_not_in new_players_by_name
                                        (map fst old_players_by_name) [],
                                    attribute_changes = ac \<rparr>)))))"

text \<open>\<^verbatim>\<open>CompareTeamSnapshots.forward\<close>: \<^verbatim>\<open>None\<close> when the loaded snapshot is
  \<^verbatim>\<open>None\<close>, else the dictionary of changes.\<close>

definition CompareTeamSnapshots_forward :: "fs \<Rightarrow> int \<Rightarrow> pyval \<Rightarrow> error + changes option" where
  "CompareTeamSnapshots_forward disk team_id new_snapshot =
     (case LoadTeamSnapshot_forward disk team_id of
        Inl e \<Rightarrow> Inl e
      | Inr old_snapshot \<Rightarrow>
          if old_snapshot = PNone then Inr None
          else
            (case compare_snapshots old_snapshot new_snapshot of
               Inl e \<Rightarrow> Inl e
             | Inr c \<Rightarrow> Inr (Some c)))"

section \<open>Reporting changes\<close>








section \<open>Notions used in the statements\<close>

text \<open>
  The definitions of this section are not part of the program: they name what the
  properties below talk about.
\<close>

text \<open>Hashable values are equal in Python exactly when they agree after a boolean is
  read as the integer it equals.\<close>

fun canon :: "pyval \<Rightarrow> pyval" where
  "canon (PBool b) = PInt (if b then 1 else 0)"
| "canon v = v"

text \<open>\<open>py_in x xs\<close>: some element of \<open>xs\<close> equals \<open>x\<close> in Python's sense.\<close>

definition py_in :: "pyval \<Rightarrow> pyval list \<Rightarrow> bool" where
  "py_in x xs = list_ex (\<lambda>y. py_eq y x) xs"

text \<open>The identity values of a collection, in iteration order.\<close>

definition identities :: "pyval list \<Rightarrow> pyval list" where
  "identities ps = concat (map (\<lambda>p. case py_getitem p ''name'' of Inr n \<Rightarrow> [n] | Inl e \<Rightarrow> []) ps)"

text \<open>The values of a list in the order first encountered: a value equal to one seen
  before is dropped.\<close>

fun first_seen :: "pyval list \<Rightarrow> pyval list \<Rightarrow> pyval list" where
  "first_seen seen [] = []"
| "first_seen seen (x # xs) =
     (if py_in x seen then first_seen seen xs else x # first_seen (seen @ [x]) xs)"

text \<open>\<open>has_name k p\<close>: the record \<open>p\<close> has the identity \<open>k\<close>.\<close>

definition has_name :: "pyval \<Rightarrow> pyval \<Rightarrow> bool" where
  "has_name k p = (case py_getitem p ''name'' of Inr n \<Rightarrow> py_eq n k | Inl e \<Rightarrow> False)"

text \<open>The record of a collection that occurs last among those with identity \<open>n\<close>.\<close>

definition view_record :: "pyval list \<Rightarrow> pyval \<Rightarrow> pyval option" where
  "view_record ps n =
     (case filter (has_name n) ps of [] \<Rightarrow> None | m # ms \<Rightarrow> Some (last (m # ms)))"

text \<open>\<open>keys_ok d\<close>: every key of the name dictionary \<open>d\<close> is hashable.\<close>

definition keys_ok :: "(pyval \<times> 'v) list \<Rightarrow> bool" where
  "keys_ok d = list_all (\<lambda>kv. hashable (fst kv)) d"

text \<open>\<^verbatim>\<open>p.get(a)\<close> of a record, the keys of its \<^verbatim>\<open>skills\<close> dictionary, and
  \<^verbatim>\<open>p["skills"].get(k)\<close>.\<close>

definition field :: "pyval \<Rightarrow> string \<Rightarrow> pyval" where
  "field p a = (case py_get p a of Inr v \<Rightarrow> v | Inl e \<Rightarrow> PNone)"

definition skill_keys :: "pyval \<Rightarrow> string list" where
  "skill_keys p =
     (case py_get_default p ''skills'' (PDict []) of Inr (PDict kvs) \<Rightarrow> map fst kvs | _ \<Rightarrow> [])"

definition skill_of :: "pyval \<Rightarrow> string \<Rightarrow> pyval" where
  "skill_of p k = (case py_getitem p ''skills'' of Inr sk \<Rightarrow> field sk k | Inl e \<Rightarrow> PNone)"

text \<open>What the dictionary of changes reports for field \<open>a\<close> of identity \<open>n\<close>.\<close>

definition reported :: "changes \<Rightarrow> pyval \<Rightarrow> string \<Rightarrow> (pyval \<times> pyval) option" where
  "reported c n a =
     (case pydict_lookup (attribute_changes c) n of None \<Rightarrow> None | Some diff \<Rightarrow> map_of diff a)"

text \<open>A record that is a dictionary whose \<^verbatim>\<open>name\<close>, when present, is hashable; and a
  dictionary without the key \<^verbatim>\<open>name\<close>.\<close>

definition record_ok :: "pyval \<Rightarrow> bool" where
  "record_ok p =
     (case p of
        PDict kvs \<Rightarrow> (case map_of kvs ''name'' of None \<Rightarrow> True | Some n \<Rightarrow> hashable n)
      | _ \<Rightarrow> False)"

definition lacks_name :: "pyval \<Rightarrow> bool" where
  "lacks_name p = (case p of PDict kvs \<Rightarrow> map_of kvs ''name'' = None | _ \<Rightarrow> False)"



text \<open>What may follow a value in the encoder's text: nothing, a comma, or a new line.\<close>

definition delimited :: "string \<Rightarrow> bool" where
  "delimited rest = (case rest of [] \<Rightarrow> True | c # cs \<Rightarrow> c = CHR '','' \<or> c = NL)"


section \<open>Sample inputs\<close>

text \<open>The directory after a successful save of \<open>data\<close> for team \<open>team_id\<close> into an
  empty directory.\<close>

definition disk_with :: "int \<Rightarrow> pyval \<Rightarrow> fs" where
  "disk_with team_id data = fst (SaveTeamSnapshot_forward NoFault Map.empty team_id data)"

text \<open>An old and a new roster: player A changes, C (stored twice) and D leave, B (listed
  twice) and E arrive.\<close>

definition olds2 :: "pyval list" where
  "olds2 = [PDict [(''name'', PStr ''A''), (''age'', PInt 20),
                   (''skills'', PDict [(''speed'', PInt 5), (''kicking'', PInt 3)])],
            PDict [(''name'', PStr ''C'')],
            PDict [(''name'', PStr ''C''), (''age'', PInt 1)],
            PDict [(''name'', PStr ''D'')]]"

definition news2 :: "pyval list" where
  "news2 = [PDict [(''name'', PStr ''B''), (''age'', PInt 19)],
            PDict [(''name'', PStr ''A''), (''age'', PInt 21), (''nationality'', PStr ''NZ''),
                   (''skills'', PDict [(''speed'', PInt 6), (''stamina'', PInt 9)])],
            PDict [(''name'', PStr ''E'')],
            PDict [(''name'', PStr ''B''), (''age'', PInt 20)]]"

definition changes2 :: changes where
  "changes2 = \<lparr> new_players = [PStr ''B'', PStr ''E''],
                removed_players = [PStr ''C'', PStr ''D''],
                attribute_changes =
                  [(PStr ''A'', [(''age'', (PInt 20, PInt 21)), (''speed'', (PInt 5, PInt 6)),
                                 (''kicking'', (PInt 3, PNone))])] \<rparr>"

section \<open>Keys and lookups of the name dictionaries\<close>

lemma py_eq_canon: "hashable a \<Longrightarrow> hashable b \<Longrightarrow> py_eq a b = (canon a = canon b)"
  by (cases a; cases b) auto

lemma hashable_canon [simp]: "hashable (canon a) = hashable a"
  by (cases a) auto

lemma py_eq_unhashable: "hashable a \<Longrightarrow> \<not> hashable b \<Longrightarrow> \<not> py_eq a b"
  by (cases a; cases b) auto

lemma keys_ok_simps [simp]:
  "keys_ok []" "keys_ok (p # ps) = (hashable (fst p) \<and> keys_ok ps)"
  "keys_ok (xs @ ys) = (keys_ok xs \<and> keys_ok ys)"
  by (auto simp: keys_ok_def)

lemma pydict_lookup_canon:
  "keys_ok d \<Longrightarrow> hashable k \<Longrightarrow>
   pydict_lookup d k = map_of (map (\<lambda>kv. (canon (fst kv), snd kv)) d) (canon k)"
  by (induction d) (auto simp: py_eq_canon)

lemma pydict_lookup_unhashable:
  "keys_ok d \<Longrightarrow> \<not> hashable k \<Longrightarrow> pydict_lookup d k = None"
  by (induction d) (auto simp: py_eq_unhashable)

lemma keys_ok_setitem [simp]:
  "keys_ok (pydict_setitem d k v) = (keys_ok d \<and> (hashable k \<or> (\<exists>p \<in> set d. py_eq (fst p) k)))"
  by (induction d) auto

lemma pydict_lookup_setitem:
  "keys_ok d \<Longrightarrow> hashable k \<Longrightarrow> hashable k' \<Longrightarrow>
   pydict_lookup (pydict_setitem d k v) k' = (if py_eq k k' then Some v else pydict_lookup d k')"
  by (induction d) (auto simp: py_eq_canon)

lemma pydict_contains_py_in:
  "pydict_contains d k = py_in k (map fst d)"
  by (induction d) (auto simp: pydict_contains_def py_in_def)

lemma map_fst_setitem:
  "map fst (pydict_setitem d k v) = (if py_in k (map fst d) then map fst d else map fst d @ [k])"
  by (induction d) (auto simp: py_in_def)

lemma py_in_append [simp]: "py_in x (xs @ ys) = (py_in x xs \<or> py_in x ys)"
  by (auto simp: py_in_def list_ex_iff)

lemma py_in_simps [simp]: "py_in x [] = False" "py_in x (y # ys) = (py_eq y x \<or> py_in x ys)"
  by (auto simp: py_in_def)

lemma pydict_lookup_py_in:
  "pydict_lookup d n = Some r \<Longrightarrow> py_in n (map fst d)"
  by (induction d) (auto split: if_splits)

lemma names_not_in_filter:
  "names_not_in d2 names lst = lst @ filter (\<lambda>n. \<not> pydict_contains d2 n) names"
  by (induction names arbitrary: lst) auto

lemma identities_simps [simp]:
  "identities [] = []"
  "identities (p # ps) = (case py_getitem p ''name'' of Inr n \<Rightarrow> [n] | Inl e \<Rightarrow> []) @ identities ps"
  by (auto simp: identities_def)

lemma players_by_name_keys:
  "players_by_name acc ps = Inr d \<Longrightarrow>
   map fst d = map fst acc @ first_seen (map fst acc) (identities ps)"
proof (induction ps arbitrary: acc)
  case Nil
  then show ?case by simp
next
  case (Cons p ps)
  then show ?case
    by (auto split: sum.splits if_splits simp: map_fst_setitem)
qed

lemma players_by_name_keys_ok:
  "players_by_name acc ps = Inr d \<Longrightarrow> keys_ok acc \<Longrightarrow> keys_ok d"
proof (induction ps arbitrary: acc)
  case Nil
  then show ?case by simp
next
  case (Cons p ps)
  then show ?case
    by (auto split: sum.splits if_splits)
qed

lemma players_by_name_identities_ok:
  "players_by_name acc ps = Inr d \<Longrightarrow> list_all hashable (identities ps)"
proof (induction ps arbitrary: acc)
  case Nil
  then show ?case by simp
next
  case (Cons p ps)
  then show ?case
    by (auto split: sum.splits if_splits)
qed

lemma py_in_first_seen:
  "list_all hashable seen \<Longrightarrow> list_all hashable xs \<Longrightarrow> hashable x \<Longrightarrow>
   (py_in x seen \<or> py_in x (first_seen seen xs)) = (py_in x seen \<or> py_in x xs)"
proof (induction xs arbitrary: seen)
  case Nil
  then show ?case by simp
next
  case (Cons y ys)
  show ?case
  proof (cases "py_in y seen")
    case True
    have "py_eq y x \<Longrightarrow> py_in x seen"
      using True Cons.prems by (auto simp: py_in_def list_ex_iff list_all_iff py_eq_canon)
    with True Cons show ?thesis by auto
  next
    case False
    with Cons.IH [of "seen @ [y]"] Cons.prems show ?thesis by auto
  qed
qed

lemma players_by_name_lookup:
  "players_by_name acc ps = Inr d \<Longrightarrow> keys_ok acc \<Longrightarrow> hashable k \<Longrightarrow>
   pydict_lookup d k =
     (if filter (has_name k) ps = [] then pydict_lookup acc k
      else Some (last (filter (has_name k) ps)))"
proof (induction ps arbitrary: acc)
  case Nil
  then show ?case by simp
next
  case (Cons p ps)
  from Cons.prems(1) obtain n where n: "py_getitem p ''name'' = Inr n" "hashable n"
    and rest: "players_by_name (pydict_setitem acc n p) ps = Inr d"
    by (auto split: sum.splits if_splits)
  have ok: "keys_ok (pydict_setitem acc n p)" using Cons.prems(2) n by simp
  have hn: "has_name k p = py_eq n k" using n by (simp add: has_name_def)
  show ?case
    using Cons.IH [OF rest ok Cons.prems(3)] Cons.prems n hn
    by (simp add: pydict_lookup_setitem)
qed

lemma players_by_name_view_record:
  assumes "players_by_name [] ps = Inr d" "hashable n"
  shows "pydict_lookup d n = view_record ps n"
  using players_by_name_lookup [OF assms(1) _ assms(2)]
  by (auto simp: view_record_def split: list.splits)

lemma view_record_hashable:
  assumes "players_by_name [] ps = Inr d" "view_record ps n = Some r"
  shows "hashable n"
proof -
  from assms(2) have "filter (has_name n) ps \<noteq> []"
    by (auto simp: view_record_def split: list.splits)
  then obtain p where "p \<in> set (filter (has_name n) ps)"
    by (cases "filter (has_name n) ps") auto
  then have p: "p \<in> set ps" "has_name n p" by simp_all
  then obtain m where m: "py_getitem p ''name'' = Inr m" "py_eq m n"
    by (auto simp: has_name_def split: sum.splits)
  have "m \<in> set (identities ps)"
    using p(1) m(1) by (auto simp: identities_def intro!: bexI [of _ p])
  with players_by_name_identities_ok [OF assms(1)] have "hashable m"
    by (simp add: list_all_iff)
  with m(2) show ?thesis using py_eq_unhashable by blast
qed

lemma not_in_view:
  assumes "players_by_name [] ps = Inr d" "hashable n"
  shows "pydict_contains d n = py_in n (identities ps)"
proof -
  have "map fst d = first_seen [] (identities ps)"
    using players_by_name_keys [OF assms(1)] by simp
  moreover have "list_all hashable (identities ps)"
    using players_by_name_identities_ok [OF assms(1)] .
  ultimately show ?thesis
    using py_in_first_seen [of "[]" "identities ps" n] assms(2)
    by (simp add: pydict_contains_py_in)
qed

lemma view_keys_hashable:
  assumes "players_by_name [] ps = Inr d"
  shows "list_all hashable (map fst d)"
  using players_by_name_keys_ok [OF assms] by (simp add: keys_ok_def list_all_iff)

section \<open>The comparison on two lists of records\<close>

lemma compare_success:
  assumes "LoadTeamSnapshot_forward disk team_id = Inr old_snapshot"
      and "CompareTeamSnapshots_forward disk team_id new_snapshot = Inr (Some c)"
  shows "compare_snapshots old_snapshot new_snapshot = Inr c"
  using assms by (auto simp: CompareTeamSnapshots_forward_def split: if_splits sum.splits)

lemma compare_snapshots_views:
  assumes "compare_snapshots (PList olds) (PList news) = Inr c"
  obtains ov nv where "players_by_name [] olds = Inr ov" "players_by_name [] news = Inr nv"
    "attribute_loop ov nv (map fst nv) [] = Inr (attribute_changes c)"
    "new_players c = names_not_in ov (map fst nv) []"
    "removed_players c = names_not_in nv (map fst ov) []"
  using assms by (auto simp: compare_snapshots_def split: sum.splits)

text \<open>The sample rosters, evaluated.\<close>

lemma load_olds2: "LoadTeamSnapshot_forward (disk_with 7 (PList olds2)) 7 = Inr (PList olds2)"
  by code_simp

lemma compare_olds2_news2:
  "CompareTeamSnapshots_forward (disk_with 7 (PList olds2)) 7 (PList news2) = Inr (Some changes2)"
  by code_simp

lemma view_olds2_A: "view_record olds2 (PStr ''A'') = Some (olds2 ! 0)"
  by code_simp

lemma view_news2_A: "view_record news2 (PStr ''A'') = Some (news2 ! 1)"
  by code_simp

lemma load_disk_A:
  "LoadTeamSnapshot_forward (disk_with 1 (PList [PDict [(''name'', PStr ''A'')]])) 1 =
     Inr (PList [PDict [(''name'', PStr ''A'')]])"
  by code_simp

section \<open>No baseline\<close>

text \<open>
  Claim C2. When \<^verbatim>\<open>LoadTeamSnapshot.forward\<close> returns \<^verbatim>\<open>None\<close> for the team id (no
  snapshot file exists), \<^verbatim>\<open>CompareTeamSnapshots.forward\<close> returns \<^verbatim>\<open>None\<close> for every
  new snapshot: no dictionary of changes and no exception.
\<close>

theorem compare_absent_baseline:
  "LoadTeamSnapshot_forward disk team_id = Inr PNone \<Longrightarrow>
   CompareTeamSnapshots_forward disk team_id C = Inr None"
  by (simp add: CompareTeamSnapshots_forward_def)

theorem compare_absent_baseline_witness:
  "LoadTeamSnapshot_forward Map.empty 1 = Inr PNone \<and>
   CompareTeamSnapshots_forward Map.empty 1 (PList [PDict [(''name'', PStr ''A'')]]) = Inr None"
proof -
  have h: "LoadTeamSnapshot_forward Map.empty 1 = Inr PNone"
    by (simp add: LoadTeamSnapshot_forward_def)
  from compare_absent_baseline [OF h, of "PList [PDict [(''name'', PStr ''A'')]]"] h
  show ?thesis by simp
qed

section \<open>Added and removed players\<close>

text \<open>
  Claim C1. When the stored snapshot is the list \<open>olds\<close> and the comparison with the list
  \<open>news\<close> returns the changes \<open>c\<close>, then \<^verbatim>\<open>new_players\<close> is the list of the identities
  of \<open>news\<close> in first-encounter order, restricted to those that are not an identity of
  \<open>olds\<close>, and \<^verbatim>\<open>removed_players\<close> is the list of the identities of \<open>olds\<close> in
  first-encounter order, restricted to those that are not an identity of \<open>news\<close>.
\<close>

theorem added_removed:
  assumes "LoadTeamSnapshot_forward disk team_id = Inr (PList olds)"
      and "CompareTeamSnapshots_forward disk team_id (PList news) = Inr (Some c)"
  shows "new_players c =
           filter (\<lambda>n. \<not> py_in n (identities olds)) (first_seen [] (identities news)) \<and>
         removed_players c =
           filter (\<lambda>n. \<not> py_in n (identities news)) (first_seen [] (identities olds))"
proof -
  from compare_success [OF assms] have "compare_snapshots (PList olds) (PList news) = Inr c" .
  then obtain ov nv where ov: "players_by_name [] olds = Inr ov"
    and nv: "players_by_name [] news = Inr nv"
    and np: "new_players c = names_not_in ov (map fst nv) []"
    and rp: "removed_players c = names_not_in nv (map fst ov) []"
    by (rule compare_snapshots_views)
  have kn: "map fst nv = first_seen [] (identities news)"
    using players_by_name_keys [OF nv] by simp
  have ko: "map fst ov = first_seen [] (identities olds)"
    using players_by_name_keys [OF ov] by simp
  have "filter (\<lambda>n. \<not> pydict_contains ov n) (map fst nv) =
        filter (\<lambda>n. \<not> py_in n (identities olds)) (map fst nv)"
    using view_keys_hashable [OF nv] not_in_view [OF ov]
    by (intro filter_cong) (auto simp: list_all_iff)
  moreover have "filter (\<lambda>n. \<not> pydict_contains nv n) (map fst ov) =
        filter (\<lambda>n. \<not> py_in n (identities news)) (map fst ov)"
    using view_keys_hashable [OF ov] not_in_view [OF nv]
    by (intro filter_cong) (auto simp: list_all_iff)
  ultimately show ?thesis
    using np rp kn ko by (simp add: names_not_in_filter)
qed

theorem added_removed_witness:
  "LoadTeamSnapshot_forward (disk_with 7 (PList olds2)) 7 = Inr (PList olds2) \<and>
   CompareTeamSnapshots_forward (disk_with 7 (PList olds2)) 7 (PList news2) = Inr (Some changes2) \<and>
   filter (\<lambda>n. \<not> py_in n (identities olds2)) (first_seen [] (identities news2)) =
     [PStr ''B'', PStr ''E''] \<and>
   filter (\<lambda>n. \<not> py_in n (identities news2)) (first_seen [] (identities olds2)) =
     [PStr ''C'', PStr ''D'']"
  using added_removed [OF load_olds2 compare_olds2_news2] load_olds2 compare_olds2_news2
  by (simp add: changes2_def)

section \<open>Last write wins\<close>

text \<open>
  Claim C9. The dictionary comprehension that indexes a collection by identity (the
  same function \<open>players_by_name\<close> for the old and for the new collection) binds an
  identity to the record that occurs last with it: if \<open>p\<close> has identity \<open>n\<close> and no
  record after \<open>p\<close> has an identity equal to \<open>n\<close>, the lookup of \<open>n\<close> gives \<open>p\<close>,
  whatever records with that identity stand before \<open>p\<close>.
\<close>

theorem last_write_wins:
  assumes "players_by_name [] (xs @ p # ys) = Inr d"
      and "py_getitem p ''name'' = Inr n"
      and "list_all (\<lambda>q. \<not> has_name n q) ys"
  shows "pydict_lookup d n = Some p"
proof -
  have "n \<in> set (identities (xs @ p # ys))"
    using assms(2) by (auto simp: identities_def)
  with players_by_name_identities_ok [OF assms(1)] have hn: "hashable n"
    by (simp add: list_all_iff)
  have hp: "has_name n p" using assms(2) hn by (simp add: has_name_def py_eq_canon)
  have "filter (has_name n) ys = []" using assms(3) by (simp add: list_all_iff filter_empty_conv)
  then have "filter (has_name n) (xs @ p # ys) = filter (has_name n) xs @ [p]"
    using hp by simp
  with players_by_name_lookup [OF assms(1) _ hn] show ?thesis by simp
qed

theorem last_write_wins_witness:
  "players_by_name [] ([olds2 ! 0, olds2 ! 1] @ olds2 ! 2 # [olds2 ! 3]) =
     Inr [(PStr ''A'', olds2 ! 0), (PStr ''C'', olds2 ! 2), (PStr ''D'', olds2 ! 3)] \<and>
   py_getitem (olds2 ! 2) ''name'' = Inr (PStr ''C'') \<and>
   py_getitem (olds2 ! 1) ''name'' = Inr (PStr ''C'') \<and>
   list_all (\<lambda>q. \<not> has_name (PStr ''C'') q) [olds2 ! 3] \<and>
   pydict_lookup [(PStr ''A'', olds2 ! 0), (PStr ''C'', olds2 ! 2), (PStr ''D'', olds2 ! 3)]
     (PStr ''C'') = Some (olds2 ! 2)"
proof -
  have a: "players_by_name [] ([olds2 ! 0, olds2 ! 1] @ olds2 ! 2 # [olds2 ! 3]) =
     Inr [(PStr ''A'', olds2 ! 0), (PStr ''C'', olds2 ! 2), (PStr ''D'', olds2 ! 3)]"
    by code_simp
  have b: "py_getitem (olds2 ! 2) ''name'' = Inr (PStr ''C'')" by code_simp
  have b': "py_getitem (olds2 ! 1) ''name'' = Inr (PStr ''C'')" by code_simp
  have c: "list_all (\<lambda>q. \<not> has_name (PStr ''C'') q) [olds2 ! 3]" by code_simp
  from last_write_wins [OF a b c] a b b' c show ?thesis by simp
qed

section \<open>Attribute changes of a matched player\<close>

lemma map_of_dict_setitem: "map_of (dict_setitem d k v) = (map_of d)(k \<mapsto> v)"
  by (induction d) (auto simp: fun_eq_iff)

lemma check_attrs_map_of:
  "check_attrs old_p new_p attrs diff = Inr diff' \<Longrightarrow>
   map_of diff' a =
     (if a \<in> set attrs \<and> \<not> py_eq (field old_p a) (field new_p a)
      then Some (field old_p a, field new_p a) else map_of diff a)"
proof (induction attrs arbitrary: diff)
  case Nil
  then show ?case by simp
next
  case (Cons x xs)
  then show ?case
    by (auto split: sum.splits if_splits simp: map_of_dict_setitem field_def)
qed

lemma skills_loop_map_of:
  "skills_loop old_p new_p skills diff = Inr diff' \<Longrightarrow>
   map_of diff' a =
     (if a \<in> set skills \<and> \<not> py_eq (skill_of old_p a) (skill_of new_p a)
      then Some (skill_of old_p a, skill_of new_p a) else map_of diff a)"
proof (induction skills arbitrary: diff)
  case Nil
  then show ?case by simp
next
  case (Cons x xs)
  then show ?case
    by (auto split: sum.splits if_splits simp: map_of_dict_setitem field_def skill_of_def)
qed

lemma check_skills_map_of:
  assumes "check_skills old_p new_p diff = Inr diff'"
  shows "map_of diff' a =
     (if a \<in> set (skill_keys old_p) \<and> \<not> py_eq (skill_of old_p a) (skill_of new_p a)
      then Some (skill_of old_p a, skill_of new_p a) else map_of diff a)"
proof (cases "py_get_default old_p ''skills'' (PDict [])")
  case (Inl e)
  with assms show ?thesis by (simp add: check_skills_def)
next
  case (Inr sk)
  show ?thesis
  proof (cases sk)
    case (PDict kvs)
    with Inr assms have "skills_loop old_p new_p (map fst kvs) diff = Inr diff'"
      by (simp add: check_skills_def)
    from skills_loop_map_of [OF this] Inr PDict show ?thesis
      by (simp add: skill_keys_def)
  qed (use Inr assms in \<open>auto simp: check_skills_def skill_keys_def split: if_splits\<close>)
qed

lemma player_diff_map_of:
  assumes "player_diff old_p new_p = Inr diff"
  shows "map_of diff a =
     (if a \<in> set (skill_keys old_p) \<and> \<not> py_eq (skill_of old_p a) (skill_of new_p a)
      then Some (skill_of old_p a, skill_of new_p a)
      else if a \<in> set ATTRS \<and> \<not> py_eq (field old_p a) (field new_p a)
      then Some (field old_p a, field new_p a)
      else None)"
proof -
  from assms obtain d1 where d1: "check_attrs old_p new_p ATTRS [] = Inr d1"
    and d2: "check_skills old_p new_p d1 = Inr diff"
    by (auto simp: player_diff_def split: sum.splits)
  show ?thesis
    using check_attrs_map_of [OF d1, of a] check_skills_map_of [OF d2, of a] by simp
qed


lemma attribute_loop_keys_ok:
  "attribute_loop ov nv names ac = Inr ac' \<Longrightarrow> keys_ok ac \<Longrightarrow> list_all hashable names \<Longrightarrow>
   keys_ok ac'"
proof (induction names arbitrary: ac)
  case Nil
  then show ?case by simp
next
  case (Cons m ms)
  then show ?case
    by (auto split: option.splits sum.splits if_splits)
qed

lemma attribute_loop_lookup:
  assumes "attribute_loop ov nv names ac = Inr ac'"
      and "keys_ok ov" "keys_ok nv" "keys_ok ac" "list_all hashable names" "hashable n"
      and "pydict_lookup ov n = Some old_p" "pydict_lookup nv n = Some new_p"
  shows "\<exists>diff. (py_in n names \<longrightarrow> player_diff old_p new_p = Inr diff) \<and>
     pydict_lookup ac' n =
       (if py_in n names \<and> diff \<noteq> [] then Some diff else pydict_lookup ac n)"
  using assms
proof (induction names arbitrary: ac)
  case Nil
  then show ?case by simp
next
  case (Cons m ms)
  have hm: "hashable m" and hms: "list_all hashable ms" using Cons.prems(5) by auto
  show ?case
  proof (cases "pydict_lookup ov m")
    case None
    have "\<not> py_eq m n"
    proof
      assume "py_eq m n"
      then have "canon m = canon n" using hm Cons.prems(6) by (simp add: py_eq_canon)
      then have "pydict_lookup ov m = pydict_lookup ov n"
        using Cons.prems(2,6) hm by (simp add: pydict_lookup_canon)
      with None Cons.prems(7) show False by simp
    qed
    moreover from None Cons.prems(1) have "attribute_loop ov nv ms ac = Inr ac'" by simp
    ultimately show ?thesis
      using Cons.IH [OF _ Cons.prems(2,3,4) hms Cons.prems(6,7,8)] by simp
  next
    case (Some op)
    with Cons.prems(1) obtain np d where np: "pydict_lookup nv m = Some np"
      and d: "player_diff op np = Inr d"
      and rest: "attribute_loop ov nv ms (if d \<noteq> [] then pydict_setitem ac m d else ac) = Inr ac'"
      by (auto split: option.splits sum.splits)
    have ok': "keys_ok (if d \<noteq> [] then pydict_setitem ac m d else ac)"
      using Cons.prems(4) hm by simp
    from Cons.IH [OF rest Cons.prems(2,3) ok' hms Cons.prems(6,7,8)]
    obtain diff where diff: "py_in n ms \<longrightarrow> player_diff old_p new_p = Inr diff"
      and lk: "pydict_lookup ac' n =
         (if py_in n ms \<and> diff \<noteq> [] then Some diff
          else pydict_lookup (if d \<noteq> [] then pydict_setitem ac m d else ac) n)"
      by blast
    show ?thesis
    proof (cases "py_eq m n")
      case False
      with diff lk show ?thesis
        using Cons.prems(4,6) hm by (auto simp: pydict_lookup_setitem)
    next
      case True
      then have "canon m = canon n" using hm Cons.prems(6) by (simp add: py_eq_canon)
      then have "pydict_lookup ov m = pydict_lookup ov n" "pydict_lookup nv m = pydict_lookup nv n"
        using Cons.prems(2,3,6) hm by (simp_all add: pydict_lookup_canon)
      with Some np Cons.prems(7,8) have eq: "op = old_p" "np = new_p" by simp_all
      show ?thesis
      proof (cases "py_in n ms")
        case True
        with diff d eq have "diff = d" by simp
        with lk d eq \<open>py_eq m n\<close> show ?thesis
          using Cons.prems(4,6) hm by (auto simp: pydict_lookup_setitem)
      next
        case False
        with lk d eq \<open>py_eq m n\<close> show ?thesis
          using Cons.prems(4,6) hm by (auto simp: pydict_lookup_setitem intro!: exI [of _ d])
      qed
    qed
  qed
qed

lemma matched_diff:
  assumes "LoadTeamSnapshot_forward disk team_id = Inr (PList olds)"
      and "CompareTeamSnapshots_forward disk team_id (PList news) = Inr (Some c)"
      and "view_record olds n = Some old_p" "view_record news n = Some new_p"
  shows "\<exists>diff. player_diff old_p new_p = Inr diff \<and>
     pydict_lookup (attribute_changes c) n = (if diff \<noteq> [] then Some diff else None)"
proof -
  from compare_success [OF assms(1,2)]
  have "compare_snapshots (PList olds) (PList news) = Inr c" .
  then obtain ov nv where ov: "players_by_name [] olds = Inr ov"
    and nv: "players_by_name [] news = Inr nv"
    and ac: "attribute_loop ov nv (map fst nv) [] = Inr (attribute_changes c)"
    by (rule compare_snapshots_views)
  have hn: "hashable n" using view_record_hashable [OF ov assms(3)] .
  have lo: "pydict_lookup ov n = Some old_p"
    using players_by_name_view_record [OF ov hn] assms(3) by simp
  have ln: "pydict_lookup nv n = Some new_p"
    using players_by_name_view_record [OF nv hn] assms(4) by simp
  have kov: "keys_ok ov" using players_by_name_keys_ok [OF ov] by simp
  have knv: "keys_ok nv" using players_by_name_keys_ok [OF nv] by simp
  have hs: "list_all hashable (map fst nv)" using view_keys_hashable [OF nv] .
  have inn: "py_in n (map fst nv)" using pydict_lookup_py_in [OF ln] .
  have k0: "keys_ok ([] :: (pyval \<times> diff) list)" by simp
  from attribute_loop_lookup [OF ac kov knv k0 hs hn lo ln]
  obtain diff where d: "py_in n (map fst nv) \<longrightarrow> player_diff old_p new_p = Inr diff"
    and l: "pydict_lookup (attribute_changes c) n =
       (if py_in n (map fst nv) \<and> diff \<noteq> [] then Some diff else pydict_lookup [] n)"
    by blast
  from d inn have "player_diff old_p new_p = Inr diff" by simp
  moreover from l inn
  have "pydict_lookup (attribute_changes c) n = (if diff \<noteq> [] then Some diff else None)"
    by simp
  ultimately show ?thesis by blast
qed

lemma reported_entry:
  assumes "LoadTeamSnapshot_forward disk team_id = Inr (PList olds)"
      and "CompareTeamSnapshots_forward disk team_id (PList news) = Inr (Some c)"
      and "view_record olds n = Some old_p" "view_record news n = Some new_p"
  shows "reported c n a =
     (if a \<in> set (skill_keys old_p) \<and> \<not> py_eq (skill_of old_p a) (skill_of new_p a)
      then Some (skill_of old_p a, skill_of new_p a)
      else if a \<in> set ATTRS \<and> \<not> py_eq (field old_p a) (field new_p a)
      then Some (field old_p a, field new_p a)
      else None)"
proof -
  from matched_diff [OF assms] obtain diff where d: "player_diff old_p new_p = Inr diff"
    and l: "pydict_lookup (attribute_changes c) n = (if diff \<noteq> [] then Some diff else None)"
    by blast
  have "reported c n a = map_of diff a"
    using l by (cases diff) (simp_all add: reported_def)
  then show ?thesis using player_diff_map_of [OF d, of a] by simp
qed



text \<open>
  Claim C4. For a matched pair of records, a key \<open>k\<close> that is not a key of the old
  record's skills gets no entry from the skills comparison, also when the new record's
  skills have it: what is reported under \<open>k\<close> is the top-level comparison alone (nothing
  when \<open>k\<close> is not in \<open>ATTRS\<close>). A key of the old skills whose value differs in the new
  skills, where a missing key reads as \<^verbatim>\<open>None\<close>, is reported with the old and the new
  value.
\<close>

theorem skills_old_keys_only:
  assumes "LoadTeamSnapshot_forward disk team_id = Inr (PList olds)"
      and "CompareTeamSnapshots_forward disk team_id (PList news) = Inr (Some c)"
      and "view_record olds n = Some old_p" "view_record news n = Some new_p"
  shows "(k \<notin> set (skill_keys old_p) \<longrightarrow>
            reported c n k =
              (if k \<in> set ATTRS \<and> \<not> py_eq (field old_p k) (field new_p k)
               then Some (field old_p k, field new_p k) else None)) \<and>
         (k \<in> set (skill_keys old_p) \<and> \<not> py_eq (skill_of old_p k) (skill_of new_p k) \<longrightarrow>
            reported c n k = Some (skill_of old_p k, skill_of new_p k))"
proof (intro conjI impI)
  assume "k \<notin> set (skill_keys old_p)"
  then show "reported c n k =
      (if k \<in> set ATTRS \<and> \<not> py_eq (field old_p k) (field new_p k)
       then Some (field old_p k, field new_p k) else None)"
    by (simp only: reported_entry [OF assms, of k] if_False simp_thms)
next
  assume "k \<in> set (skill_keys old_p) \<and> \<not> py_eq (skill_of old_p k) (skill_of new_p k)"
  then show "reported c n k = Some (skill_of old_p k, skill_of new_p k)"
    by (simp only: reported_entry [OF assms, of k] if_True simp_thms)
qed

theorem skills_old_keys_only_witness:
  "LoadTeamSnapshot_forward (disk_with 7 (PList olds2)) 7 = Inr (PList olds2) \<and>
   CompareTeamSnapshots_forward (disk_with 7 (PList olds2)) 7 (PList news2) = Inr (Some changes2) \<and>
   view_record olds2 (PStr ''A'') = Some (olds2 ! 0) \<and>
   view_record news2 (PStr ''A'') = Some (news2 ! 1) \<and>
   ''stamina'' \<notin> set (skill_keys (olds2 ! 0)) \<and>
   reported changes2 (PStr ''A'') ''stamina'' = None \<and>
   ''kicking'' \<in> set (skill_keys (olds2 ! 0)) \<and>
   \<not> py_eq (skill_of (olds2 ! 0) ''kicking'') (skill_of (news2 ! 1) ''kicking'') \<and>
   reported changes2 (PStr ''A'') ''kicking'' = Some (PInt 3, PNone)"
proof -
  note s = skills_old_keys_only [OF load_olds2 compare_olds2_news2 view_olds2_A view_news2_A,
      of "''stamina''"]
  note k = skills_old_keys_only [OF load_olds2 compare_olds2_news2 view_olds2_A view_news2_A,
      of "''kicking''"]
  have a: "''stamina'' \<notin> set (skill_keys (olds2 ! 0))" by code_simp
  have b: "''stamina'' \<notin> set ATTRS" by code_simp
  have c: "''kicking'' \<in> set (skill_keys (olds2 ! 0))" by code_simp
  have d: "\<not> py_eq (skill_of (olds2 ! 0) ''kicking'') (skill_of (news2 ! 1) ''kicking'')"
    by code_simp
  have e: "skill_of (olds2 ! 0) ''kicking'' = PInt 3" "skill_of (news2 ! 1) ''kicking'' = PNone"
    by code_simp+
  from s a b have "reported changes2 (PStr ''A'') ''stamina'' = None" by simp
  moreover from k c d e have "reported changes2 (PStr ''A'') ''kicking'' = Some (PInt 3, PNone)"
    by simp
  ultimately show ?thesis
    using load_olds2 compare_olds2_news2 view_olds2_A view_news2_A a c d by simp
qed

section \<open>Records without skills\<close>

text \<open>
  Claim C5. The claim is that the comparison raises nothing on well-formed collections,
  where the skills of a record are optional. The code reads the old record's skills with
  \<^verbatim>\<open>old_p.get("skills", {})\<close> but the new record's with \<^verbatim>\<open>new_p["skills"]\<close>: when
  the stored record of a player has skills and the new record of the same player has
  none, the comparison raises \<^verbatim>\<open>KeyError('skills')\<close>.
\<close>

theorem missing_new_skills_raises:
  "CompareTeamSnapshots_forward
     (disk_with 1 (PList [PDict [(''name'', PStr ''A''), (''skills'', PDict [(''speed'', PInt 1)])]])) 1
     (PList [PDict [(''name'', PStr ''A'')]]) = Inl (KeyError (PStr ''skills''))"
  by code_simp

section \<open>Records without a name\<close>

lemma lacks_name_PDict: "lacks_name (PDict kvs) = (map_of kvs ''name'' = None)"
  by (simp add: lacks_name_def)

lemma players_by_name_records:
  "list_all record_ok ps \<Longrightarrow>
   (if list_ex lacks_name ps then players_by_name acc ps = Inl (KeyError (PStr ''name''))
    else (\<exists>d. players_by_name acc ps = Inr d))"
proof (induction ps arbitrary: acc)
  case Nil
  then show ?case by simp
next
  case (Cons p ps)
  from Cons.prems have rp: "record_ok p" and ok: "list_all record_ok ps" by simp_all
  from rp obtain kvs where p: "p = PDict kvs"
    and h: "case map_of kvs ''name'' of None \<Rightarrow> True | Some n \<Rightarrow> hashable n"
    by (auto simp: record_ok_def split: pyval.splits)
  show ?case
  proof (cases "map_of kvs ''name''")
    case None
    with p show ?thesis by (simp add: lacks_name_PDict)
  next
    case (Some n)
    with h have "hashable n" by simp
    with Some Cons.IH [OF ok, of "pydict_setitem acc n (PDict kvs)"] show ?thesis
      unfolding p by (simp add: lacks_name_PDict)
  qed
qed

text \<open>
  Claim C6, as stated: a record without the key \<^verbatim>\<open>name\<close> is skipped. It is not: with a
  stored snapshot of one player and a new snapshot whose second record has no name, the
  comparison raises \<^verbatim>\<open>KeyError('name')\<close>.
\<close>

theorem missing_name_not_skipped:
  "CompareTeamSnapshots_forward (disk_with 1 (PList [PDict [(''name'', PStr ''A'')]])) 1
     (PList [PDict [(''name'', PStr ''B'')], PDict [(''age'', PInt 3)]]) =
     Inl (KeyError (PStr ''name''))"
  by code_simp

text \<open>
  Claim C6, amended. When the stored and the new collection are lists of dictionaries
  whose names, where present, are hashable, and some record of either list has no key
  \<^verbatim>\<open>name\<close>, the comparison raises \<^verbatim>\<open>KeyError('name')\<close> and returns no changes.
\<close>

theorem missing_name_raises:
  assumes "LoadTeamSnapshot_forward disk team_id = Inr (PList olds)"
      and "list_all record_ok (olds @ news)"
      and "list_ex lacks_name (olds @ news)"
  shows "CompareTeamSnapshots_forward disk team_id (PList news) = Inl (KeyError (PStr ''name''))"
proof -
  have oko: "list_all record_ok olds" and okn: "list_all record_ok news"
    using assms(2) by simp_all
  have "compare_snapshots (PList olds) (PList news) = Inl (KeyError (PStr ''name''))"
  proof (cases "list_ex lacks_name olds")
    case True
    with players_by_name_records [OF oko, of "[]"] show ?thesis
      by (simp add: compare_snapshots_def)
  next
    case False
    with assms(3) have ln: "list_ex lacks_name news" by simp
    from False players_by_name_records [OF oko, of "[]"]
    obtain ov where "players_by_name [] olds = Inr ov" by auto
    with ln players_by_name_records [OF okn, of "[]"] show ?thesis
      by (simp add: compare_snapshots_def)
  qed
  with assms(1) show ?thesis by (simp add: CompareTeamSnapshots_forward_def)
qed

theorem missing_name_raises_witness:
  "LoadTeamSnapshot_forward (disk_with 1 (PList [PDict [(''name'', PStr ''A'')]])) 1 =
     Inr (PList [PDict [(''name'', PStr ''A'')]]) \<and>
   list_all record_ok ([PDict [(''name'', PStr ''A'')]] @
      [PDict [(''name'', PStr ''A'')], PDict [(''age'', PInt 3)]]) \<and>
   list_ex lacks_name ([PDict [(''name'', PStr ''A'')]] @
      [PDict [(''name'', PStr ''A'')], PDict [(''age'', PInt 3)]]) \<and>
   CompareTeamSnapshots_forward (disk_with 1 (PList [PDict [(''name'', PStr ''A'')]])) 1
     (PList [PDict [(''name'', PStr ''A'')], PDict [(''age'', PInt 3)]]) =
     Inl (KeyError (PStr ''name''))"
proof -
  have a: "list_all record_ok ([PDict [(''name'', PStr ''A'')]] @
      [PDict [(''name'', PStr ''A'')], PDict [(''age'', PInt 3)]])" by code_simp
  have b: "list_ex lacks_name ([PDict [(''name'', PStr ''A'')]] @
      [PDict [(''name'', PStr ''A'')], PDict [(''age'', PInt 3)]])" by code_simp
  from missing_name_raises [OF load_disk_A a b] load_disk_A a b show ?thesis by simp
qed

section \<open>A failing save\<close>




section \<open>Saving and loading\<close>

subsection \<open>Digits and numbers\<close>




















subsection \<open>Strings\<close>






subsection \<open>White space and first characters\<close>










lemma delimited_simps [simp]:
  "delimited []" "delimited (CHR '','' # s)" "delimited (newline_indent l @ s)"
  by (simp_all add: delimited_def newline_indent_def)



subsection \<open>One step of the decoder\<close>










subsection \<open>The decoder reads back what the encoder writes\<close>






section \<open>The report\<close>





end
